theory Spec2Isabelle
  imports Main "HOL-Library.Word" "HOL-Library.Signed_Division"
begin

unbundle bit_operations_syntax

section \<open>The SSD1322 display controller emulation\<close>

text \<open>
  A shallow embedding of the Go package \<^verbatim>\<open>device\<close>: the memory helper
  (nibble-packed pixel arithmetic), the base device (VRAM and dirty region) and the
  SSD1322 controller (command interpreter and payload writer).

  Go's \<^verbatim>\<open>byte\<close> is an 8-bit word. Go's \<^verbatim>\<open>int\<close> is modelled by \<open>int\<close>: the
  integers of the controller are byte-sized arguments, cursor positions, and the linear
  index \<^verbatim>\<open>y*480 + x + colOffset\<close> of a coordinate inside the plane; the model takes
  plane dimensions for which that index fits a machine integer, and no other arithmetic
  of the package leaves the machine range. Go's \<^verbatim>\<open>/\<close> and \<^verbatim>\<open>%\<close> truncate
  towards zero: they are \<open>sdiv\<close> and \<open>smod\<close>. A slice is a list; the methods mutate
  the receiver, the model returns the new value. An indexing expression with a negative
  index panics in Go: the model returns \<open>IndexPanic\<close> there.
\<close>

type_synonym byte = "8 word"

datatype PixelFormat = HorizontalNibble | VerticalByte | RGB888

datatype error =
    PixelOutOfBounds int int
  | VramOffsetOutOfBounds int
  | NotInDataWriteMode
  | InvalidDimensions int int
  | IndexPanic

subsection \<open>MemoryHelper\<close>

record MemoryHelper =
  width :: int
  height :: int
  pixelFormat :: PixelFormat
  colOffset :: int

definition NewMemoryHelper :: "int \<Rightarrow> int \<Rightarrow> PixelFormat \<Rightarrow> int \<Rightarrow> MemoryHelper" where
  "NewMemoryHelper w h pf off =
     \<lparr>width = w, height = h, pixelFormat = pf, colOffset = off\<rparr>"

definition PixelToByteOffsetNibble :: "MemoryHelper \<Rightarrow> int \<Rightarrow> int \<Rightarrow> error + (int \<times> int)" where
  "PixelToByteOffsetNibble mh x y =
     (if x < 0 \<or> x \<ge> width mh \<or> y < 0 \<or> y \<ge> height mh then Inl (PixelOutOfBounds x y)
      else let columns = 480;
               byteOffset = (y * columns + x + colOffset mh) sdiv 2;
               nibbleIndex = (x + colOffset mh) smod 2
           in Inr (byteOffset, nibbleIndex))"

definition SetPixelNibble :: "MemoryHelper \<Rightarrow> byte list \<Rightarrow> int \<Rightarrow> int \<Rightarrow> byte \<Rightarrow> error + byte list" where
  "SetPixelNibble mh vram x y color =
     (case PixelToByteOffsetNibble mh x y of
        Inl err \<Rightarrow> Inl err
      | Inr (byteOffset, nibbleIndex) \<Rightarrow>
          if byteOffset \<ge> int (length vram) then Inl (VramOffsetOutOfBounds byteOffset)
          else if byteOffset < 0 then Inl IndexPanic
          else let c = color AND 0x0F; i = nat byteOffset
               in if nibbleIndex = 0
                  then Inr (vram[i := (vram ! i AND 0xF0) OR c])
                  else Inr (vram[i := (vram ! i AND 0x0F) OR push_bit 4 c]))"

definition GetPixelNibble :: "MemoryHelper \<Rightarrow> byte list \<Rightarrow> int \<Rightarrow> int \<Rightarrow> error + byte" where
  "GetPixelNibble mh vram x y =
     (case PixelToByteOffsetNibble mh x y of
        Inl err \<Rightarrow> Inl err
      | Inr (byteOffset, nibbleIndex) \<Rightarrow>
          if byteOffset \<ge> int (length vram) then Inl (VramOffsetOutOfBounds byteOffset)
          else if byteOffset < 0 then Inl IndexPanic
          else if nibbleIndex = 0 then Inr (vram ! nat byteOffset AND 0x0F)
          else Inr (drop_bit 4 (vram ! nat byteOffset) AND 0x0F))"

subsection \<open>BaseDevice\<close>

record Config =
  Width :: int
  Height :: int
  ColorDepth :: int
  PixelFormat :: PixelFormat
  ColumnOffset :: int
  InitCommands :: "byte list"

record BaseDevice =
  config :: Config
  vram :: "byte list"
  dirtyX0 :: int
  dirtyY0 :: int
  dirtyX1 :: int
  dirtyY1 :: int
  hasDirty :: bool

definition allocateVRAM :: "Config \<Rightarrow> byte list" where
  "allocateVRAM cfg =
     (case PixelFormat cfg of
        HorizontalNibble \<Rightarrow> replicate (nat ((480 * Height cfg) sdiv 2)) 0
      | VerticalByte \<Rightarrow> replicate (nat (Width cfg * ((Height cfg + 7) sdiv 8))) 0
      | RGB888 \<Rightarrow> replicate (nat (Width cfg * Height cfg * 3)) 0)"

definition NewBaseDevice :: "Config \<Rightarrow> error + BaseDevice" where
  "NewBaseDevice cfg =
     (if Width cfg \<le> 0 \<or> Height cfg \<le> 0 then Inl (InvalidDimensions (Width cfg) (Height cfg))
      else Inr \<lparr>config = cfg, vram = allocateVRAM cfg,
                dirtyX0 = -1, dirtyY0 = -1, dirtyX1 = -1, dirtyY1 = -1, hasDirty = False\<rparr>)"

definition GetDirtyRegion :: "'a BaseDevice_scheme \<Rightarrow> int \<times> int \<times> int \<times> int" where
  "GetDirtyRegion bd =
     (if \<not> hasDirty bd then (-1, -1, -1, -1)
      else (dirtyX0 bd, dirtyY0 bd, dirtyX1 bd, dirtyY1 bd))"

definition ClearDirtyRegion :: "'a BaseDevice_scheme \<Rightarrow> 'a BaseDevice_scheme" where
  "ClearDirtyRegion bd =
     bd\<lparr>hasDirty := False, dirtyX0 := -1, dirtyY0 := -1, dirtyX1 := -1, dirtyY1 := -1\<rparr>"

definition MarkDirty :: "'a BaseDevice_scheme \<Rightarrow> int \<Rightarrow> int \<Rightarrow> int \<Rightarrow> int \<Rightarrow> 'a BaseDevice_scheme" where
  "MarkDirty bd x0 y0 x1 y1 =
     (let x0 = (if x0 < 0 then 0 else x0);
          y0 = (if y0 < 0 then 0 else y0);
          x1 = (if x1 \<ge> Width (config bd) then Width (config bd) - 1 else x1);
          y1 = (if y1 \<ge> Height (config bd) then Height (config bd) - 1 else y1)
      in if \<not> hasDirty bd
         then bd\<lparr>dirtyX0 := x0, dirtyY0 := y0, dirtyX1 := x1, dirtyY1 := y1, hasDirty := True\<rparr>
         else bd\<lparr>dirtyX0 := (if x0 < dirtyX0 bd then x0 else dirtyX0 bd),
                 dirtyY0 := (if y0 < dirtyY0 bd then y0 else dirtyY0 bd),
                 dirtyX1 := (if x1 > dirtyX1 bd then x1 else dirtyX1 bd),
                 dirtyY1 := (if y1 > dirtyY1 bd then y1 else dirtyY1 bd)\<rparr>)"

text \<open>The methods \<^verbatim>\<open>Width()\<close> and \<^verbatim>\<open>Height()\<close> of the base device.\<close>

definition BaseDevice_Width :: "'a BaseDevice_scheme \<Rightarrow> int" where
  "BaseDevice_Width bd = Width (config bd)"

definition BaseDevice_Height :: "'a BaseDevice_scheme \<Rightarrow> int" where
  "BaseDevice_Height bd = Height (config bd)"

subsection \<open>SSD1322\<close>

abbreviation CmdSetColumnAddress :: byte where "CmdSetColumnAddress \<equiv> 0x15"
abbreviation CmdSetRowAddress :: byte where "CmdSetRowAddress \<equiv> 0x75"
abbreviation CmdWriteRAM :: byte where "CmdWriteRAM \<equiv> 0x5C"
abbreviation CmdReadRAM :: byte where "CmdReadRAM \<equiv> 0x5D"
abbreviation CmdSetContrast :: byte where "CmdSetContrast \<equiv> 0xC1"
abbreviation CmdMasterContrast :: byte where "CmdMasterContrast \<equiv> 0xC7"
abbreviation CmdSetRemap :: byte where "CmdSetRemap \<equiv> 0xA0"
abbreviation CmdSetStartLine :: byte where "CmdSetStartLine \<equiv> 0xA1"
abbreviation CmdDisplayOffset :: byte where "CmdDisplayOffset \<equiv> 0xA2"
abbreviation CmdDisplayMode :: byte where "CmdDisplayMode \<equiv> 0xA4"
abbreviation CmdInvertDisplay :: byte where "CmdInvertDisplay \<equiv> 0xA6"
abbreviation CmdSetMultiplexRatio :: byte where "CmdSetMultiplexRatio \<equiv> 0xCA"
abbreviation CmdSleepMode :: byte where "CmdSleepMode \<equiv> 0xAE"
abbreviation CmdNormalDisplay :: byte where "CmdNormalDisplay \<equiv> 0xAF"
abbreviation CmdHorizontalScroll :: byte where "CmdHorizontalScroll \<equiv> 0x26"
abbreviation CmdContinuousScroll :: byte where "CmdContinuousScroll \<equiv> 0x27"
abbreviation CmdDeactivateScroll :: byte where "CmdDeactivateScroll \<equiv> 0x2E"
abbreviation CmdActivateScroll :: byte where "CmdActivateScroll \<equiv> 0x2F"
abbreviation CmdSetClockDivider :: byte where "CmdSetClockDivider \<equiv> 0xB3"
abbreviation CmdSetPhaseLength :: byte where "CmdSetPhaseLength \<equiv> 0xB1"
abbreviation CmdEnhanceDisplay :: byte where "CmdEnhanceDisplay \<equiv> 0xB4"
abbreviation CmdSetPrecharge :: byte where "CmdSetPrecharge \<equiv> 0xBB"
abbreviation CmdSetVCOMH :: byte where "CmdSetVCOMH \<equiv> 0xBE"
abbreviation CmdGrayscaleTable :: byte where "CmdGrayscaleTable \<equiv> 0xB9"
abbreviation CmdCommandLock :: byte where "CmdCommandLock \<equiv> 0xFD"

text \<open>The struct embeds \<^verbatim>\<open>*BaseDevice\<close>: the record extends \<open>BaseDevice\<close>.\<close>

record SSD1322 = BaseDevice +
  memory :: MemoryHelper
  commandLocked :: bool
  displayOn :: bool
  dataMode :: bool
  contrastLevel :: byte
  masterCurrentLevel :: byte
  invertDisplay :: bool
  columnStart :: int
  columnEnd :: int
  rowStart :: int
  rowEnd :: int
  currentColumn :: int
  currentRow :: int
  scrollEnabled :: bool
  startLine :: int
  displayOffset :: int
  multiplexRatio :: byte
  clockDivider :: byte
  phaseLength :: byte
  prechargeVoltage :: byte
  vcomhLevel :: byte
  remapSettings :: byte
  grayscaleTableMode :: int

definition NewSSD1322 :: "int \<Rightarrow> int \<Rightarrow> error + SSD1322" where
  "NewSSD1322 w h =
     (case NewBaseDevice \<lparr>Width = w, Height = h, ColorDepth = 4, PixelFormat = HorizontalNibble,
                           ColumnOffset = 28, InitCommands = []\<rparr> of
        Inl err \<Rightarrow> Inl err
      | Inr baseDevice \<Rightarrow>
          Inr \<lparr>config = config baseDevice, vram = vram baseDevice,
               dirtyX0 = dirtyX0 baseDevice, dirtyY0 = dirtyY0 baseDevice,
               dirtyX1 = dirtyX1 baseDevice, dirtyY1 = dirtyY1 baseDevice,
               hasDirty = hasDirty baseDevice,
               memory = NewMemoryHelper w h HorizontalNibble 28,
               commandLocked = True,
               displayOn = False,
               dataMode = False,
               contrastLevel = 0x7F,
               masterCurrentLevel = 0x0F,
               invertDisplay = False,
               columnStart = 0,
               columnEnd = w - 1,
               rowStart = 0,
               rowEnd = h - 1,
               currentColumn = 0,
               currentRow = 0,
               scrollEnabled = False,
               startLine = 0,
               displayOffset = 0,
               multiplexRatio = 0x3F,
               clockDivider = 0x00,
               phaseLength = 0x74,
               prechargeVoltage = 0x3C,
               vcomhLevel = 0x07,
               remapSettings = 0x14,
               grayscaleTableMode = 0\<rparr>)"

text \<open>
  \<^verbatim>\<open>ProcessCommand\<close>: the first \<^verbatim>\<open>switch\<close>, the empty lock check, then the second
  \<^verbatim>\<open>switch\<close>, in the order of the source. The result is the controller after the call
  and the returned error (\<open>None\<close> for \<^verbatim>\<open>nil\<close>).
\<close>

definition ProcessCommand :: "SSD1322 \<Rightarrow> byte \<Rightarrow> byte list \<Rightarrow> SSD1322 \<times> error option" where
  "ProcessCommand ssd cmd data =
     (if cmd = CmdCommandLock then
        (if length data > 0 then
           (if data ! 0 = 0xB1 then (ssd\<lparr>commandLocked := False\<rparr>, None)
            else if data ! 0 = 0xB0 then (ssd\<lparr>commandLocked := True\<rparr>, None)
            else (ssd, None))
         else (ssd, None))
      else if cmd = CmdNormalDisplay then (ssd\<lparr>displayOn := True\<rparr>, None)
      else if cmd = CmdSleepMode then (ssd\<lparr>displayOn := False\<rparr>, None)
      else if cmd = CmdWriteRAM then (ssd\<lparr>dataMode := True\<rparr>, None)
      else if cmd = CmdReadRAM then (ssd\<lparr>dataMode := True\<rparr>, None)
      else let ssd = (if commandLocked ssd \<and> cmd \<noteq> CmdCommandLock then ssd else ssd) in
      if cmd = CmdSetColumnAddress then
        (if length data \<ge> 2
         then (ssd\<lparr>columnStart := uint (data ! 0), columnEnd := uint (data ! 1),
                   currentColumn := uint (data ! 0)\<rparr>, None)
         else (ssd, None))
      else if cmd = CmdSetRowAddress then
        (if length data \<ge> 2
         then (ssd\<lparr>rowStart := uint (data ! 0), rowEnd := uint (data ! 1),
                   currentRow := uint (data ! 0)\<rparr>, None)
         else (ssd, None))
      else if cmd = CmdSetContrast then
        (if length data > 0 then (ssd\<lparr>contrastLevel := data ! 0\<rparr>, None) else (ssd, None))
      else if cmd = CmdMasterContrast then
        (if length data > 0 then (ssd\<lparr>masterCurrentLevel := data ! 0 AND 0x0F\<rparr>, None)
         else (ssd, None))
      else if cmd = CmdInvertDisplay then
        (if length data > 0 then (ssd\<lparr>invertDisplay := (data ! 0 AND 0x01 \<noteq> 0)\<rparr>, None)
         else (ssd, None))
      else if cmd = CmdSetMultiplexRatio then
        (if length data > 0 then (ssd\<lparr>multiplexRatio := data ! 0\<rparr>, None) else (ssd, None))
      else if cmd = CmdSetStartLine then
        (if length data > 0 then (ssd\<lparr>startLine := uint (data ! 0 AND 0x7F)\<rparr>, None)
         else (ssd, None))
      else if cmd = CmdDisplayOffset then
        (if length data > 0 then (ssd\<lparr>displayOffset := uint (data ! 0)\<rparr>, None)
         else (ssd, None))
      else if cmd = CmdSetRemap then
        (if length data > 0 then (ssd\<lparr>remapSettings := data ! 0\<rparr>, None) else (ssd, None))
      else if cmd = CmdSetClockDivider then
        (if length data > 0 then (ssd\<lparr>clockDivider := data ! 0\<rparr>, None) else (ssd, None))
      else if cmd = CmdSetPhaseLength then
        (if length data > 0 then (ssd\<lparr>phaseLength := data ! 0\<rparr>, None) else (ssd, None))
      else if cmd = CmdEnhanceDisplay then (ssd, None)
      else if cmd = CmdSetPrecharge then
        (if length data > 0 then (ssd\<lparr>prechargeVoltage := data ! 0\<rparr>, None) else (ssd, None))
      else if cmd = CmdSetVCOMH then
        (if length data > 0 then (ssd\<lparr>vcomhLevel := data ! 0\<rparr>, None) else (ssd, None))
      else if cmd = CmdGrayscaleTable then
        (if length data > 0 then (ssd\<lparr>grayscaleTableMode := uint (data ! 0)\<rparr>, None)
         else (ssd, None))
      else if cmd = CmdDeactivateScroll then (ssd\<lparr>scrollEnabled := False\<rparr>, None)
      else if cmd = CmdActivateScroll then (ssd\<lparr>scrollEnabled := True\<rparr>, None)
      else if cmd = CmdHorizontalScroll then
        (if length data \<ge> 5 then (ssd\<lparr>scrollEnabled := True\<rparr>, None) else (ssd, None))
      else if cmd = CmdDisplayMode then (ssd, None)
      else (ssd, None))"

text \<open>
  \<^verbatim>\<open>WriteData\<close>. The source writes a nibble with
  \<^verbatim>\<open>if err := SetPixelNibble(...); err == nil { MarkDirty(...) }\<close>: an error value is
  dropped, the write is followed by \<^verbatim>\<open>MarkDirty\<close>, and a panic of the indexing
  expression leaves the function at once. \<open>write_nibble\<close> is that statement,
  \<open>WriteData_byte\<close> the body of the loop, \<open>WriteData_loop\<close> the loop.
\<close>

definition write_nibble :: "SSD1322 \<Rightarrow> int \<Rightarrow> int \<Rightarrow> byte \<Rightarrow> SSD1322 \<times> error option" where
  "write_nibble ssd x y c =
     (case SetPixelNibble (memory ssd) (vram ssd) x y c of
        Inr v \<Rightarrow> (MarkDirty (ssd\<lparr>vram := v\<rparr>) x y x y, None)
      | Inl err \<Rightarrow> (ssd, if err = IndexPanic then Some IndexPanic else None))"

definition advance_cursor :: "SSD1322 \<Rightarrow> SSD1322" where
  "advance_cursor ssd =
     (let ssd = ssd\<lparr>currentColumn := currentColumn ssd + 1\<rparr> in
      if currentColumn ssd > columnEnd ssd then
        (let ssd = ssd\<lparr>currentColumn := columnStart ssd, currentRow := currentRow ssd + 1\<rparr> in
         if currentRow ssd > rowEnd ssd then ssd\<lparr>currentRow := rowStart ssd\<rparr> else ssd)
      else ssd)"

definition WriteData_byte :: "SSD1322 \<Rightarrow> byte \<Rightarrow> SSD1322 \<times> error option" where
  "WriteData_byte ssd byteVal =
     (let col = currentColumn ssd; row = currentRow ssd in
      if col \<ge> columnStart ssd \<and> col \<le> columnEnd ssd \<and> row \<ge> rowStart ssd \<and> row \<le> rowEnd ssd
      then
        (let displayCol = col - columnStart ssd in
         if displayCol < BaseDevice_Width ssd then
           (let pixel1 = byteVal AND 0x0F in
            case write_nibble ssd displayCol row pixel1 of
              (ssd, Some err) \<Rightarrow> (ssd, Some err)
            | (ssd, None) \<Rightarrow>
                (let displayCol = displayCol + 1 in
                 if displayCol < BaseDevice_Width ssd then
                   (let pixel2 = drop_bit 4 byteVal AND 0x0F in
                    case write_nibble ssd displayCol row pixel2 of
                      (ssd, Some err) \<Rightarrow> (ssd, Some err)
                    | (ssd, None) \<Rightarrow> (advance_cursor ssd, None))
                 else (advance_cursor ssd, None)))
         else (ssd, None))
      else (ssd, None))"

fun WriteData_loop :: "SSD1322 \<Rightarrow> byte list \<Rightarrow> SSD1322 \<times> error option" where
  "WriteData_loop ssd [] = (ssd, None)"
| "WriteData_loop ssd (byteVal # rest) =
     (case WriteData_byte ssd byteVal of
        (ssd, Some err) \<Rightarrow> (ssd, Some err)
      | (ssd, None) \<Rightarrow> WriteData_loop ssd rest)"

definition WriteData :: "SSD1322 \<Rightarrow> byte list \<Rightarrow> SSD1322 \<times> error option" where
  "WriteData ssd data =
     (if \<not> dataMode ssd then (ssd, Some NotInDataWriteMode)
      else WriteData_loop ssd data)"

definition SetPixel :: "SSD1322 \<Rightarrow> int \<Rightarrow> int \<Rightarrow> byte \<Rightarrow> SSD1322 \<times> error option" where
  "SetPixel ssd x y color =
     (if x < 0 \<or> x \<ge> BaseDevice_Width ssd \<or> y < 0 \<or> y \<ge> BaseDevice_Height ssd
      then (ssd, Some (PixelOutOfBounds x y))
      else case SetPixelNibble (memory ssd) (vram ssd) x y (color AND 0x0F) of
             Inl err \<Rightarrow> (ssd, Some err)
           | Inr v \<Rightarrow> (MarkDirty (ssd\<lparr>vram := v\<rparr>) x y x y, None))"

definition GetPixel :: "SSD1322 \<Rightarrow> int \<Rightarrow> int \<Rightarrow> error + byte" where
  "GetPixel ssd x y = GetPixelNibble (memory ssd) (vram ssd) x y"

definition Reset :: "SSD1322 \<Rightarrow> SSD1322 \<times> error option" where
  "Reset ssd =
     (let ssd = ssd\<lparr>vram := map (\<lambda>_. 0) (vram ssd)\<rparr>;
          ssd = ssd\<lparr>commandLocked := True,
                    displayOn := False,
                    dataMode := False,
                    contrastLevel := 0x7F,
                    masterCurrentLevel := 0x0F,
                    invertDisplay := False,
                    columnStart := 0,
                    columnEnd := BaseDevice_Width ssd - 1,
                    rowStart := 0,
                    rowEnd := BaseDevice_Height ssd - 1,
                    currentColumn := 0,
                    currentRow := 0,
                    scrollEnabled := False,
                    startLine := 0,
                    displayOffset := 0\<rparr>
      in (MarkDirty ssd 0 0 (BaseDevice_Width ssd - 1) (BaseDevice_Height ssd - 1), None))"

subsection \<open>Auxiliary definitions\<close>

text \<open>
  The byte that \<^verbatim>\<open>SetPixelNibble\<close> stores at the located offset: the lower nibble is
  replaced when the nibble index is 0, the upper nibble otherwise.
\<close>

definition nibble_store :: "int \<Rightarrow> byte \<Rightarrow> byte \<Rightarrow> byte" where
  "nibble_store nib old color =
     (if nib = 0 then (old AND 0xF0) OR (color AND 0x0F)
      else (old AND 0x0F) OR push_bit 4 (color AND 0x0F))"

text \<open>
  The opcodes that have a \<^verbatim>\<open>case\<close> in one of the two switches of
  \<^verbatim>\<open>ProcessCommand\<close>, and the number of argument bytes the handler of an opcode reads
  behind its \<^verbatim>\<open>len(data)\<close> guard.
\<close>

definition recognized_opcodes :: "byte list" where
  "recognized_opcodes =
     [CmdCommandLock, CmdNormalDisplay, CmdSleepMode, CmdWriteRAM, CmdReadRAM,
      CmdSetColumnAddress, CmdSetRowAddress, CmdSetContrast, CmdMasterContrast,
      CmdInvertDisplay, CmdSetMultiplexRatio, CmdSetStartLine, CmdDisplayOffset, CmdSetRemap,
      CmdSetClockDivider, CmdSetPhaseLength, CmdEnhanceDisplay, CmdSetPrecharge, CmdSetVCOMH,
      CmdGrayscaleTable, CmdDeactivateScroll, CmdActivateScroll, CmdHorizontalScroll,
      CmdDisplayMode]"

definition required_args :: "byte \<Rightarrow> nat" where
  "required_args cmd =
     (if cmd = CmdSetColumnAddress \<or> cmd = CmdSetRowAddress then 2
      else if cmd = CmdHorizontalScroll then 5
      else if cmd \<in> set [CmdCommandLock, CmdSetContrast, CmdMasterContrast, CmdInvertDisplay,
                          CmdSetMultiplexRatio, CmdSetStartLine, CmdDisplayOffset, CmdSetRemap,
                          CmdSetClockDivider, CmdSetPhaseLength, CmdSetPrecharge, CmdSetVCOMH,
                          CmdGrayscaleTable] then 1
      else 0)"

text \<open>
  A result with the lock flag of its controller overwritten: the image, under the change
  of the lock flag alone, of what a call returns.
\<close>

definition relock :: "bool \<Rightarrow> SSD1322 \<times> error option \<Rightarrow> SSD1322 \<times> error option" where
  "relock b r = ((fst r)\<lparr>commandLocked := b\<rparr>, snd r)"

text \<open>
  A caller's view of the controller: a sequence of calls of the exported mutating methods,
  each on the state the previous one left. A returned error does not stop the caller.
  \<open>ssd_256x64\<close> is the controller \<^verbatim>\<open>NewSSD1322(256, 64)\<close>.
\<close>

datatype call =
    Command byte "byte list"
  | Data "byte list"
  | Pixel int int byte
  | ResetCall
  | ClearDirty
  | Mark int int int int

fun step :: "SSD1322 \<Rightarrow> call \<Rightarrow> SSD1322" where
  "step ssd (Command cmd data) = fst (ProcessCommand ssd cmd data)"
| "step ssd (Data data) = fst (WriteData ssd data)"
| "step ssd (Pixel x y color) = fst (SetPixel ssd x y color)"
| "step ssd ResetCall = fst (Reset ssd)"
| "step ssd ClearDirty = ClearDirtyRegion ssd"
| "step ssd (Mark x0 y0 x1 y1) = MarkDirty ssd x0 y0 x1 y1"

definition run :: "SSD1322 \<Rightarrow> call list \<Rightarrow> SSD1322" where
  "run ssd calls = foldl step ssd calls"

definition ssd_256x64 :: SSD1322 where
  "ssd_256x64 = projr (NewSSD1322 256 64)"

text \<open>
  What \<^verbatim>\<open>NewSSD1322(w, h)\<close> establishes and no method changes: the dimensions, the
  memory helper, the size of the VRAM, and a dirty box inside the viewport.
\<close>

definition constructed :: "int \<Rightarrow> int \<Rightarrow> SSD1322 \<Rightarrow> bool" where
  "constructed w h ssd \<longleftrightarrow>
     0 < w \<and> 0 < h \<and> Width (config ssd) = w \<and> Height (config ssd) = h
     \<and> memory ssd = NewMemoryHelper w h HorizontalNibble 28
     \<and> length (vram ssd) = nat ((480 * h) sdiv 2)
     \<and> (hasDirty ssd \<longrightarrow> 0 \<le> dirtyX0 ssd \<and> 0 \<le> dirtyY0 ssd
                          \<and> dirtyX1 ssd \<le> w - 1 \<and> dirtyY1 ssd \<le> h - 1)"

text \<open>
  The addressing-window invariant, and the calls whose window arguments are ordered
  (start not above end).
\<close>

definition window_invariant :: "SSD1322 \<Rightarrow> bool" where
  "window_invariant ssd \<longleftrightarrow>
     columnStart ssd \<le> currentColumn ssd \<and> currentColumn ssd \<le> columnEnd ssd
     \<and> rowStart ssd \<le> currentRow ssd \<and> currentRow ssd \<le> rowEnd ssd"


text \<open>
  A caller writing pixels one after the other with \<^verbatim>\<open>SetPixel\<close>, stopping at the
  first error; and the test that a dirty region contains a coordinate.
\<close>

fun SetPixels :: "SSD1322 \<Rightarrow> (int \<times> int \<times> byte) list \<Rightarrow> SSD1322 \<times> error option" where
  "SetPixels ssd [] = (ssd, None)"
| "SetPixels ssd ((x, y, color) # rest) =
     (case SetPixel ssd x y color of
        (ssd, Some err) \<Rightarrow> (ssd, Some err)
      | (ssd, None) \<Rightarrow> SetPixels ssd rest)"

definition covers :: "int \<times> int \<times> int \<times> int \<Rightarrow> int \<Rightarrow> int \<Rightarrow> bool" where
  "covers r x y = (case r of (x0, y0, x1, y1) \<Rightarrow> x0 \<le> x \<and> x \<le> x1 \<and> y0 \<le> y \<and> y \<le> y1)"

text \<open>A coordinate is covered when a dirty box is recorded and contains it.\<close>

definition covered :: "'a BaseDevice_scheme \<Rightarrow> int \<Rightarrow> int \<Rightarrow> bool" where
  "covered bd a b \<longleftrightarrow> hasDirty bd \<and> covers (GetDirtyRegion bd) a b"

section \<open>Properties\<close>

subsection \<open>Nibble arithmetic\<close>

lemma nibble_low_mask: "(0x0F :: byte) = mask 4" by (simp add: mask_eq_exp_minus_1)

lemma nibble_high_mask: "(0xF0 :: byte) = NOT (mask 4)" by (simp add: mask_eq_exp_minus_1)

lemma low_write_reads_back: "(((b :: byte) AND 0xF0) OR (c AND 0x0F)) AND 0x0F = c AND 0x0F"
  unfolding nibble_low_mask nibble_high_mask by (rule bit_eqI) (auto simp add: bit_simps)


lemma high_write_reads_back: "drop_bit 4 (((b :: byte) AND 0x0F) OR push_bit 4 (c AND 0x0F)) AND 0x0F = c AND 0x0F"
  unfolding nibble_low_mask nibble_high_mask by (rule bit_eqI) (auto simp add: bit_simps)



lemma nibble_store_low: "nibble_store 0 old color = (old AND 0xF0) OR (color AND 0x0F)"
  unfolding nibble_store_def by (simp only: simp_thms if_True)

lemma nibble_store_high:
  "nib \<noteq> 0 \<Longrightarrow> nibble_store nib old color = (old AND 0x0F) OR push_bit 4 (color AND 0x0F)"
  unfolding nibble_store_def by (simp only: if_False)

lemma nibble_store_reads_back:
  "(if nib = 0 then nibble_store nib old color AND 0x0F
    else drop_bit 4 (nibble_store nib old color) AND 0x0F) = color AND 0x0F"
proof (cases "nib = 0")
  case True
  then show ?thesis
    by (simp only: nibble_store_low if_True low_write_reads_back simp_thms)
next
  case False
  then show ?thesis
    by (simp only: nibble_store_high if_False high_write_reads_back simp_thms)
qed



lemma SetPixelNibble_Inr:
  assumes "SetPixelNibble mh buf x y color = Inr buf'"
  obtains off nib where "PixelToByteOffsetNibble mh x y = Inr (off, nib)"
    and "0 \<le> off" and "off < int (length buf)"
    and "buf' = buf[nat off := nibble_store nib (buf ! nat off) color]"
  using assms unfolding nibble_store_def
  by (auto simp add: SetPixelNibble_def Let_def split: sum.splits prod.splits if_splits)

lemma SetPixelNibble_GetPixelNibble:
  assumes "SetPixelNibble mh buf x y color = Inr buf'"
  shows "GetPixelNibble mh buf' x y = Inr (color AND 0x0F)"
proof -
  from assms obtain off nib where loc: "PixelToByteOffsetNibble mh x y = Inr (off, nib)"
    and lo: "0 \<le> off" and hi: "off < int (length buf)"
    and upd: "buf' = buf[nat off := nibble_store nib (buf ! nat off) color]"
    by (rule SetPixelNibble_Inr)
  from lo hi have inb: "nat off < length buf" by simp
  have rd: "buf' ! nat off = nibble_store nib (buf ! nat off) color"
    unfolding upd using inb by (rule nth_list_update_eq)
  have len: "length buf' = length buf"
    unfolding upd by (rule length_list_update)
  have "GetPixelNibble mh buf' x y =
          Inr (if nib = 0 then nibble_store nib (buf ! nat off) color AND 0x0F
               else drop_bit 4 (nibble_store nib (buf ! nat off) color) AND 0x0F)"
    using lo hi by (simp add: GetPixelNibble_def loc len rd)
  then show ?thesis
    by (simp only: nibble_store_reads_back)
qed

lemmas device_defs =
  NewSSD1322_def NewBaseDevice_def allocateVRAM_def NewMemoryHelper_def
  BaseDevice_Width_def BaseDevice_Height_def

lemmas pixel_defs =
  SetPixelNibble_def GetPixelNibble_def PixelToByteOffsetNibble_def MarkDirty_def


lemma sdiv_2_nonneg: "0 \<le> (a::int) \<Longrightarrow> a sdiv 2 = a div 2"
  by (simp add: signed_divide_int_def sgn_if)


lemma PixelToByteOffsetNibble_nonneg:
  assumes "0 \<le> colOffset mh" and "PixelToByteOffsetNibble mh x y = Inr (off, nib)"
  shows "0 \<le> off"
proof -
  from assms(2) have b: "0 \<le> x" "0 \<le> y" and o: "off = (y * 480 + x + colOffset mh) sdiv 2"
    by (auto simp add: PixelToByteOffsetNibble_def Let_def split: if_splits)
  from b assms(1) have "0 \<le> y * 480 + x + colOffset mh" by simp
  then show ?thesis unfolding o by (simp add: sdiv_2_nonneg)
qed

lemma SetPixelNibble_no_panic:
  assumes "0 \<le> colOffset mh"
  shows "SetPixelNibble mh buf x y c \<noteq> Inl IndexPanic"
proof (cases "PixelToByteOffsetNibble mh x y")
  case (Inl e)
  then have "e = PixelOutOfBounds x y"
    by (auto simp add: PixelToByteOffsetNibble_def Let_def split: if_splits)
  with Inl show ?thesis by (simp add: SetPixelNibble_def)
next
  case (Inr p)
  obtain off nib where p: "p = (off, nib)" by (cases p)
  from PixelToByteOffsetNibble_nonneg [OF assms Inr [unfolded p]] have "0 \<le> off" .
  with Inr p show ?thesis by (simp add: SetPixelNibble_def Let_def)
qed

lemma SetPixelNibble_length:
  "SetPixelNibble mh buf x y c = Inr buf' \<Longrightarrow> length buf' = length buf"
  by (erule SetPixelNibble_Inr) simp


subsection \<open>Pixel round trip\<close>

text \<open>
  Claim C5. Whenever \<^verbatim>\<open>SetPixel(x, y, v)\<close> succeeds (which it only does for a coordinate
  inside the viewport), \<^verbatim>\<open>GetPixel(x, y)\<close> on the resulting controller returns
  \<open>v AND 0x0F\<close>, the value masked to the four bits of the packed-nibble format.
\<close>

theorem SetPixel_GetPixel_roundtrip:
  assumes "SetPixel ssd x y v = (ssd', None)"
  shows "GetPixel ssd' x y = Inr (v AND 0x0F)"
proof -
  from assms obtain vr where w: "SetPixelNibble (memory ssd) (vram ssd) x y (v AND 0x0F) = Inr vr"
    and s: "ssd' = MarkDirty (ssd\<lparr>vram := vr\<rparr>) x y x y"
    by (auto simp add: SetPixel_def split: if_splits sum.splits)
  have "memory ssd' = memory ssd" "vram ssd' = vr"
    by (simp_all add: s MarkDirty_def Let_def)
  moreover have "GetPixelNibble (memory ssd) vr x y = Inr ((v AND 0x0F) AND 0x0F)"
    using w by (rule SetPixelNibble_GetPixelNibble)
  moreover have "(v AND 0x0F) AND 0x0F = v AND 0x0F"
    by (simp only: and.right_idem and.assoc)
  ultimately show ?thesis
    by (simp only: GetPixel_def)
qed

theorem roundtrip_witness:
  "snd (SetPixel ssd_256x64 3 2 0xAB) = None
   \<and> GetPixel (fst (SetPixel ssd_256x64 3 2 0xAB)) 3 2 = Inr 0x0B"
proof -
  have ok: "snd (SetPixel ssd_256x64 3 2 0xAB) = None"
    by (simp add: ssd_256x64_def device_defs SetPixel_def pixel_defs Let_def)
  then have "SetPixel ssd_256x64 3 2 0xAB = (fst (SetPixel ssd_256x64 3 2 0xAB), None)"
    by (simp add: prod_eq_iff)
  from SetPixel_GetPixel_roundtrip [OF this] ok show ?thesis
    by simp
qed

subsection \<open>No cross-talk\<close>






subsection \<open>Scenario A\<close>

text \<open>
  Claim C4. On the 256 by 64 controller, after the unlock command with argument \<open>0xB1\<close>,
  the column window \<open>[0, 255]\<close>, the row window \<open>[0, 63]\<close> and the write-RAM command, the
  cursor is at \<open>(0, 0)\<close>; writing the payload byte \<open>0xF5\<close> returns no error, and then
  \<^verbatim>\<open>GetPixel(0, 0)\<close> is \<open>0x5\<close> and \<^verbatim>\<open>GetPixel(1, 0)\<close> is \<open>0xF\<close>.
\<close>

theorem scenario_A:
  "(let ssd = run ssd_256x64 [Command CmdCommandLock [0xB1], Command CmdSetColumnAddress [0, 255],
                              Command CmdSetRowAddress [0, 63], Command CmdWriteRAM []]
    in currentColumn ssd = 0 \<and> currentRow ssd = 0
       \<and> snd (WriteData ssd [0xF5]) = None
       \<and> GetPixel (fst (WriteData ssd [0xF5])) 0 0 = Inr 0x5
       \<and> GetPixel (fst (WriteData ssd [0xF5])) 1 0 = Inr 0xF)"
  by (simp add: run_def ssd_256x64_def device_defs ProcessCommand_def WriteData_def
        WriteData_byte_def write_nibble_def advance_cursor_def GetPixel_def pixel_defs Let_def)

subsection \<open>Command dispatch\<close>

text \<open>The two switches of \<^verbatim>\<open>ProcessCommand\<close>, one equation for each \<^verbatim>\<open>case\<close>.\<close>

lemma ProcessCommand_unrecognized:
  "cmd \<notin> set recognized_opcodes \<Longrightarrow> ProcessCommand ssd cmd data = (ssd, None)"
  by (simp add: recognized_opcodes_def ProcessCommand_def)

lemma ProcessCommand_opcode:
  "ProcessCommand ssd CmdCommandLock data =
     (if length data > 0 then
        (if data ! 0 = 0xB1 then (ssd\<lparr>commandLocked := False\<rparr>, None)
         else if data ! 0 = 0xB0 then (ssd\<lparr>commandLocked := True\<rparr>, None)
         else (ssd, None))
      else (ssd, None))"
  "ProcessCommand ssd CmdNormalDisplay data = (ssd\<lparr>displayOn := True\<rparr>, None)"
  "ProcessCommand ssd CmdSleepMode data = (ssd\<lparr>displayOn := False\<rparr>, None)"
  "ProcessCommand ssd CmdWriteRAM data = (ssd\<lparr>dataMode := True\<rparr>, None)"
  "ProcessCommand ssd CmdReadRAM data = (ssd\<lparr>dataMode := True\<rparr>, None)"
  "ProcessCommand ssd CmdSetColumnAddress data =
     (if length data \<ge> 2
      then (ssd\<lparr>columnStart := uint (data ! 0), columnEnd := uint (data ! 1),
                currentColumn := uint (data ! 0)\<rparr>, None)
      else (ssd, None))"
  "ProcessCommand ssd CmdSetRowAddress data =
     (if length data \<ge> 2
      then (ssd\<lparr>rowStart := uint (data ! 0), rowEnd := uint (data ! 1),
                currentRow := uint (data ! 0)\<rparr>, None)
      else (ssd, None))"
  "ProcessCommand ssd CmdSetContrast data =
     (if length data > 0 then (ssd\<lparr>contrastLevel := data ! 0\<rparr>, None) else (ssd, None))"
  "ProcessCommand ssd CmdMasterContrast data =
     (if length data > 0 then (ssd\<lparr>masterCurrentLevel := data ! 0 AND 0x0F\<rparr>, None)
      else (ssd, None))"
  "ProcessCommand ssd CmdInvertDisplay data =
     (if length data > 0 then (ssd\<lparr>invertDisplay := (data ! 0 AND 0x01 \<noteq> 0)\<rparr>, None)
      else (ssd, None))"
  "ProcessCommand ssd CmdSetMultiplexRatio data =
     (if length data > 0 then (ssd\<lparr>multiplexRatio := data ! 0\<rparr>, None) else (ssd, None))"
  "ProcessCommand ssd CmdSetStartLine data =
     (if length data > 0 then (ssd\<lparr>startLine := uint (data ! 0 AND 0x7F)\<rparr>, None)
      else (ssd, None))"
  "ProcessCommand ssd CmdDisplayOffset data =
     (if length data > 0 then (ssd\<lparr>displayOffset := uint (data ! 0)\<rparr>, None)
      else (ssd, None))"
  "ProcessCommand ssd CmdSetRemap data =
     (if length data > 0 then (ssd\<lparr>remapSettings := data ! 0\<rparr>, None) else (ssd, None))"
  "ProcessCommand ssd CmdSetClockDivider data =
     (if length data > 0 then (ssd\<lparr>clockDivider := data ! 0\<rparr>, None) else (ssd, None))"
  "ProcessCommand ssd CmdSetPhaseLength data =
     (if length data > 0 then (ssd\<lparr>phaseLength := data ! 0\<rparr>, None) else (ssd, None))"
  "ProcessCommand ssd CmdEnhanceDisplay data = (ssd, None)"
  "ProcessCommand ssd CmdSetPrecharge data =
     (if length data > 0 then (ssd\<lparr>prechargeVoltage := data ! 0\<rparr>, None) else (ssd, None))"
  "ProcessCommand ssd CmdSetVCOMH data =
     (if length data > 0 then (ssd\<lparr>vcomhLevel := data ! 0\<rparr>, None) else (ssd, None))"
  "ProcessCommand ssd CmdGrayscaleTable data =
     (if length data > 0 then (ssd\<lparr>grayscaleTableMode := uint (data ! 0)\<rparr>, None)
      else (ssd, None))"
  "ProcessCommand ssd CmdDeactivateScroll data = (ssd\<lparr>scrollEnabled := False\<rparr>, None)"
  "ProcessCommand ssd CmdActivateScroll data = (ssd\<lparr>scrollEnabled := True\<rparr>, None)"
  "ProcessCommand ssd CmdHorizontalScroll data =
     (if length data \<ge> 5 then (ssd\<lparr>scrollEnabled := True\<rparr>, None) else (ssd, None))"
  "ProcessCommand ssd CmdDisplayMode data = (ssd, None)"
  by (simp_all add: ProcessCommand_def)

lemma ProcessCommand_short:
  assumes "length data < required_args cmd"
  shows "ProcessCommand ssd cmd data = (ssd, None)"
proof (cases "cmd \<in> set recognized_opcodes")
  case False
  then show ?thesis by (rule ProcessCommand_unrecognized)
next
  case True
  with assms show ?thesis
    unfolding recognized_opcodes_def
    by (auto simp add: ProcessCommand_opcode required_args_def)
qed

text \<open>
  Claim C8. \<^verbatim>\<open>ProcessCommand\<close> with an opcode that has no \<^verbatim>\<open>case\<close>, for any argument
  bytes, or with fewer argument bytes than the handler of the opcode reads, returns no
  error and returns the controller it was given: every scalar, the window and the cursor,
  the mode flags, the VRAM and the dirty region are unchanged.
\<close>

theorem ProcessCommand_noop:
  assumes "cmd \<notin> set recognized_opcodes \<or> length data < required_args cmd"
  shows "ProcessCommand ssd cmd data = (ssd, None)"
  using assms ProcessCommand_unrecognized ProcessCommand_short by blast

theorem ProcessCommand_noop_witness:
  "0x00 \<notin> set recognized_opcodes
   \<and> ProcessCommand ssd_256x64 0x00 [1, 2, 3, 4, 5] = (ssd_256x64, None)
   \<and> length ([] :: byte list) < required_args CmdSetContrast
   \<and> ProcessCommand ssd_256x64 CmdSetContrast [] = (ssd_256x64, None)"
proof -
  have a: "(0x00 :: byte) \<notin> set recognized_opcodes"
    by (simp add: recognized_opcodes_def)
  have b: "length ([] :: byte list) < required_args CmdSetContrast"
    by (simp add: required_args_def)
  from ProcessCommand_noop [where cmd = "0x00" and data = "[1, 2, 3, 4, 5]" and ssd = ssd_256x64]
       ProcessCommand_noop [where cmd = CmdSetContrast and data = "[]" and ssd = ssd_256x64] a b
  show ?thesis by blast
qed


lemma ProcessCommand_base_fields:
  "config (fst (ProcessCommand ssd cmd data)) = config ssd"
  "vram (fst (ProcessCommand ssd cmd data)) = vram ssd"
  "memory (fst (ProcessCommand ssd cmd data)) = memory ssd"
  "hasDirty (fst (ProcessCommand ssd cmd data)) = hasDirty ssd"
  "dirtyX0 (fst (ProcessCommand ssd cmd data)) = dirtyX0 ssd"
  "dirtyY0 (fst (ProcessCommand ssd cmd data)) = dirtyY0 ssd"
  "dirtyX1 (fst (ProcessCommand ssd cmd data)) = dirtyX1 ssd"
  "dirtyY1 (fst (ProcessCommand ssd cmd data)) = dirtyY1 ssd"
proof -
  have "config (fst (ProcessCommand ssd cmd data)) = config ssd
      \<and> vram (fst (ProcessCommand ssd cmd data)) = vram ssd
      \<and> memory (fst (ProcessCommand ssd cmd data)) = memory ssd
      \<and> hasDirty (fst (ProcessCommand ssd cmd data)) = hasDirty ssd
      \<and> dirtyX0 (fst (ProcessCommand ssd cmd data)) = dirtyX0 ssd
      \<and> dirtyY0 (fst (ProcessCommand ssd cmd data)) = dirtyY0 ssd
      \<and> dirtyX1 (fst (ProcessCommand ssd cmd data)) = dirtyX1 ssd
      \<and> dirtyY1 (fst (ProcessCommand ssd cmd data)) = dirtyY1 ssd"
  proof (cases "cmd \<in> set recognized_opcodes")
    case False
    then show ?thesis by (simp add: ProcessCommand_unrecognized)
  next
    case True
    then show ?thesis
      unfolding recognized_opcodes_def
      by (auto simp add: ProcessCommand_opcode split: if_splits)
  qed
  then show
    "config (fst (ProcessCommand ssd cmd data)) = config ssd"
    "vram (fst (ProcessCommand ssd cmd data)) = vram ssd"
    "memory (fst (ProcessCommand ssd cmd data)) = memory ssd"
    "hasDirty (fst (ProcessCommand ssd cmd data)) = hasDirty ssd"
    "dirtyX0 (fst (ProcessCommand ssd cmd data)) = dirtyX0 ssd"
    "dirtyY0 (fst (ProcessCommand ssd cmd data)) = dirtyY0 ssd"
    "dirtyX1 (fst (ProcessCommand ssd cmd data)) = dirtyX1 ssd"
    "dirtyY1 (fst (ProcessCommand ssd cmd data)) = dirtyY1 ssd"
    by simp_all
qed

subsection \<open>The lock flag\<close>

lemma ProcessCommand_relock:
  assumes "cmd \<noteq> CmdCommandLock"
  shows "ProcessCommand (ssd\<lparr>commandLocked := b\<rparr>) cmd data = relock b (ProcessCommand ssd cmd data)"
proof (cases "cmd \<in> set recognized_opcodes")
  case False
  then show ?thesis by (simp add: ProcessCommand_unrecognized relock_def)
next
  case True
  with assms show ?thesis
    unfolding recognized_opcodes_def
    by (auto simp add: ProcessCommand_opcode relock_def)
qed

lemma write_nibble_relock:
  "write_nibble (ssd\<lparr>commandLocked := b\<rparr>) x y c = relock b (write_nibble ssd x y c)"
  by (simp add: write_nibble_def relock_def MarkDirty_def Let_def split: sum.splits)

lemma advance_cursor_relock:
  "advance_cursor (ssd\<lparr>commandLocked := b\<rparr>) = (advance_cursor ssd)\<lparr>commandLocked := b\<rparr>"
  by (simp add: advance_cursor_def Let_def)

lemma WriteData_byte_relock:
  "WriteData_byte (ssd\<lparr>commandLocked := b\<rparr>) v = relock b (WriteData_byte ssd v)"
  by (simp add: WriteData_byte_def write_nibble_relock advance_cursor_relock relock_def
        BaseDevice_Width_def Let_def split: prod.splits option.splits)

lemma WriteData_loop_relock:
  "WriteData_loop (ssd\<lparr>commandLocked := b\<rparr>) data = relock b (WriteData_loop ssd data)"
proof (induction data arbitrary: ssd)
  case Nil
  show ?case by (simp add: relock_def)
next
  case (Cons v rest)
  show ?case
  proof (cases "WriteData_byte ssd v")
    case (Pair s e)
    then show ?thesis
      by (cases e) (simp_all add: WriteData_byte_relock Cons.IH relock_def)
  qed
qed

lemma WriteData_relock:
  "WriteData (ssd\<lparr>commandLocked := b\<rparr>) data = relock b (WriteData ssd data)"
  by (simp add: WriteData_def WriteData_loop_relock) (simp add: relock_def)

text \<open>
  Claim C10. The lock-control opcode with first argument \<open>0xB1\<close> clears the lock flag and
  with first argument \<open>0xB0\<close> sets it, changing nothing else. For every other opcode and all
  argument bytes, and for every payload, running \<^verbatim>\<open>ProcessCommand\<close> or
  \<^verbatim>\<open>WriteData\<close> on a controller whose lock flag was overwritten with \<open>b\<close> returns the same
  error, and the same controller up to that overwritten lock flag, as running it on the
  controller itself.
\<close>

theorem lock_flag_noninterference:
  "ProcessCommand ssd CmdCommandLock (0xB1 # rest) = (ssd\<lparr>commandLocked := False\<rparr>, None)
   \<and> ProcessCommand ssd CmdCommandLock (0xB0 # rest) = (ssd\<lparr>commandLocked := True\<rparr>, None)
   \<and> (cmd \<noteq> CmdCommandLock \<longrightarrow>
        ProcessCommand (ssd\<lparr>commandLocked := b\<rparr>) cmd data
          = ((fst (ProcessCommand ssd cmd data))\<lparr>commandLocked := b\<rparr>,
             snd (ProcessCommand ssd cmd data)))
   \<and> WriteData (ssd\<lparr>commandLocked := b\<rparr>) payload
        = ((fst (WriteData ssd payload))\<lparr>commandLocked := b\<rparr>, snd (WriteData ssd payload))"
  using ProcessCommand_relock [where cmd = cmd and ssd = ssd and b = b and data = data]
    WriteData_relock [where ssd = ssd and b = b and data = payload]
  by (simp add: ProcessCommand_opcode relock_def)

theorem lock_flag_noninterference_witness:
  "CmdSetContrast \<noteq> CmdCommandLock
   \<and> ProcessCommand (ssd_256x64\<lparr>commandLocked := False\<rparr>) CmdSetContrast [0x80]
       = ((fst (ProcessCommand ssd_256x64 CmdSetContrast [0x80]))\<lparr>commandLocked := False\<rparr>,
          snd (ProcessCommand ssd_256x64 CmdSetContrast [0x80]))
   \<and> contrastLevel (fst (ProcessCommand (ssd_256x64\<lparr>commandLocked := False\<rparr>) CmdSetContrast [0x80])) = 0x80
   \<and> contrastLevel (fst (ProcessCommand ssd_256x64 CmdSetContrast [0x80])) = 0x80"
proof -
  have n: "CmdSetContrast \<noteq> CmdCommandLock" by simp
  have c: "contrastLevel (fst (ProcessCommand (ssd_256x64\<lparr>commandLocked := False\<rparr>) CmdSetContrast [0x80])) = 0x80"
    "contrastLevel (fst (ProcessCommand ssd_256x64 CmdSetContrast [0x80])) = 0x80"
    by (simp_all add: ProcessCommand_opcode)
  from lock_flag_noninterference [where ssd = ssd_256x64 and cmd = CmdSetContrast and b = False
         and data = "[0x80]"] n c
  show ?thesis by blast
qed

subsection \<open>What construction establishes\<close>

lemma MarkDirty_fields [simp]:
  "config (MarkDirty bd x0 y0 x1 y1) = config bd"
  "vram (MarkDirty bd x0 y0 x1 y1) = vram bd"
  "BaseDevice.more (MarkDirty bd x0 y0 x1 y1) = BaseDevice.more bd"
  by (simp_all add: MarkDirty_def Let_def)

lemma MarkDirty_ssd_fields [simp]:
  "memory (MarkDirty ssd x0 y0 x1 y1) = memory ssd"
  "dataMode (MarkDirty ssd x0 y0 x1 y1) = dataMode ssd"
  "columnStart (MarkDirty ssd x0 y0 x1 y1) = columnStart ssd"
  "columnEnd (MarkDirty ssd x0 y0 x1 y1) = columnEnd ssd"
  "rowStart (MarkDirty ssd x0 y0 x1 y1) = rowStart ssd"
  "rowEnd (MarkDirty ssd x0 y0 x1 y1) = rowEnd ssd"
  "currentColumn (MarkDirty ssd x0 y0 x1 y1) = currentColumn ssd"
  "currentRow (MarkDirty ssd x0 y0 x1 y1) = currentRow ssd"
  by (simp_all add: MarkDirty_def Let_def)

lemma MarkDirty_hasDirty [simp]: "hasDirty (MarkDirty bd x0 y0 x1 y1)"
  by (simp add: MarkDirty_def Let_def)

lemma MarkDirty_within:
  assumes "0 < Width (config bd)" "0 < Height (config bd)"
    and "hasDirty bd \<longrightarrow> 0 \<le> dirtyX0 bd \<and> 0 \<le> dirtyY0 bd
          \<and> dirtyX1 bd \<le> Width (config bd) - 1 \<and> dirtyY1 bd \<le> Height (config bd) - 1"
  shows "0 \<le> dirtyX0 (MarkDirty bd x0 y0 x1 y1) \<and> 0 \<le> dirtyY0 (MarkDirty bd x0 y0 x1 y1)
       \<and> dirtyX1 (MarkDirty bd x0 y0 x1 y1) \<le> Width (config bd) - 1
       \<and> dirtyY1 (MarkDirty bd x0 y0 x1 y1) \<le> Height (config bd) - 1"
  using assms by (auto simp add: MarkDirty_def Let_def)

lemma constructed_MarkDirty:
  "constructed w h ssd \<Longrightarrow> constructed w h (MarkDirty ssd x0 y0 x1 y1)"
  unfolding constructed_def using MarkDirty_within [of ssd x0 y0 x1 y1]
  by simp

lemma constructed_vram:
  "constructed w h ssd \<Longrightarrow> length v = length (vram ssd) \<Longrightarrow> constructed w h (ssd\<lparr>vram := v\<rparr>)"
  by (simp add: constructed_def)

lemma constructed_write_nibble:
  assumes "constructed w h ssd"
  shows "constructed w h (fst (write_nibble ssd x y c))" and "snd (write_nibble ssd x y c) = None"
proof -
  from assms have "0 \<le> colOffset (memory ssd)"
    by (simp add: constructed_def NewMemoryHelper_def)
  then have np: "SetPixelNibble (memory ssd) (vram ssd) x y c \<noteq> Inl IndexPanic"
    by (rule SetPixelNibble_no_panic)
  show "snd (write_nibble ssd x y c) = None"
    using np by (simp add: write_nibble_def split: sum.splits)
  show "constructed w h (fst (write_nibble ssd x y c))"
  proof (cases "SetPixelNibble (memory ssd) (vram ssd) x y c")
    case (Inl e)
    with assms show ?thesis by (simp add: write_nibble_def)
  next
    case (Inr v)
    then have "length v = length (vram ssd)" by (rule SetPixelNibble_length)
    with assms have "constructed w h (MarkDirty (ssd\<lparr>vram := v\<rparr>) x y x y)"
      by (intro constructed_MarkDirty constructed_vram)
    with Inr show ?thesis by (simp add: write_nibble_def)
  qed
qed

lemma constructed_cursor:
  "constructed w h ssd \<Longrightarrow> constructed w h (ssd\<lparr>currentColumn := c\<rparr>)"
  "constructed w h ssd \<Longrightarrow> constructed w h (ssd\<lparr>currentRow := r\<rparr>)"
  by (simp_all add: constructed_def)














subsection \<open>Errors of command and payload processing\<close>






subsection \<open>The addressing window\<close>


lemma write_nibble_window_fields:
  "columnStart (fst (write_nibble ssd x y c)) = columnStart ssd"
  "columnEnd (fst (write_nibble ssd x y c)) = columnEnd ssd"
  "rowStart (fst (write_nibble ssd x y c)) = rowStart ssd"
  "rowEnd (fst (write_nibble ssd x y c)) = rowEnd ssd"
  "currentColumn (fst (write_nibble ssd x y c)) = currentColumn ssd"
  "currentRow (fst (write_nibble ssd x y c)) = currentRow ssd"
  "dataMode (fst (write_nibble ssd x y c)) = dataMode ssd"
  "config (fst (write_nibble ssd x y c)) = config ssd"
  by (simp_all add: write_nibble_def split: sum.splits)



















subsection \<open>Dirty region\<close>

lemma MarkDirty_grows:
  assumes "hasDirty bd"
  shows "dirtyX0 (MarkDirty bd x0 y0 x1 y1) \<le> dirtyX0 bd
       \<and> dirtyY0 (MarkDirty bd x0 y0 x1 y1) \<le> dirtyY0 bd
       \<and> dirtyX1 bd \<le> dirtyX1 (MarkDirty bd x0 y0 x1 y1)
       \<and> dirtyY1 bd \<le> dirtyY1 (MarkDirty bd x0 y0 x1 y1)
       \<and> hasDirty (MarkDirty bd x0 y0 x1 y1)"
  using assms by (simp add: MarkDirty_def Let_def)

lemma MarkDirty_keeps_covered:
  assumes "hasDirty bd" and "covers (GetDirtyRegion bd) x y"
  shows "covers (GetDirtyRegion (MarkDirty bd x0 y0 x1 y1)) x y"
proof -
  from MarkDirty_grows [OF assms(1), of x0 y0 x1 y1] assms
  show ?thesis by (simp add: covers_def GetDirtyRegion_def)
qed

lemma MarkDirty_covers_point:
  assumes "0 \<le> x" "x < Width (config bd)" "0 \<le> y" "y < Height (config bd)"
  shows "covers (GetDirtyRegion (MarkDirty bd x y x y)) x y"
  using assms by (simp add: covers_def GetDirtyRegion_def MarkDirty_def Let_def)

lemma covers_hasDirty:
  "covers (GetDirtyRegion bd) x y \<Longrightarrow> 0 \<le> x \<Longrightarrow> hasDirty bd"
  by (auto simp add: covers_def GetDirtyRegion_def split: if_splits)

lemma SetPixel_ok:
  assumes "SetPixel ssd x y c = (ssd', None)"
  obtains v where "0 \<le> x" "x < Width (config ssd)" "0 \<le> y" "y < Height (config ssd)"
    and "ssd' = MarkDirty (ssd\<lparr>vram := v\<rparr>) x y x y"
  using assms
  by (auto simp add: SetPixel_def BaseDevice_Width_def BaseDevice_Height_def
        split: if_splits sum.splits)

lemma SetPixel_covers_written:
  assumes "SetPixel ssd x y c = (ssd', None)"
  shows "covers (GetDirtyRegion ssd') x y"
proof -
  from assms obtain v where b: "0 \<le> x" "x < Width (config ssd)" "0 \<le> y" "y < Height (config ssd)"
    and s: "ssd' = MarkDirty (ssd\<lparr>vram := v\<rparr>) x y x y"
    by (rule SetPixel_ok)
  from b have "covers (GetDirtyRegion (MarkDirty (ssd\<lparr>vram := v\<rparr>) x y x y)) x y"
    by (intro MarkDirty_covers_point) simp_all
  with s show ?thesis by simp
qed

lemma SetPixel_keeps_covered:
  assumes "SetPixel ssd x y c = (ssd', None)" and "hasDirty ssd" and "covers (GetDirtyRegion ssd) a b"
  shows "covers (GetDirtyRegion ssd') a b"
proof -
  from assms(1) obtain v where s: "ssd' = MarkDirty (ssd\<lparr>vram := v\<rparr>) x y x y"
    by (rule SetPixel_ok)
  have "GetDirtyRegion (ssd\<lparr>vram := v\<rparr>) = GetDirtyRegion ssd"
    by (simp add: GetDirtyRegion_def)
  with assms(2,3) have "covers (GetDirtyRegion (MarkDirty (ssd\<lparr>vram := v\<rparr>) x y x y)) a b"
    by (intro MarkDirty_keeps_covered) simp_all
  with s show ?thesis by simp
qed

lemma SetPixel_hasDirty:
  "SetPixel ssd x y c = (ssd', None) \<Longrightarrow> hasDirty ssd'"
  by (erule SetPixel_ok) simp

lemma SetPixels_keeps_covered:
  assumes "SetPixels ssd ws = (ssd', None)" and "hasDirty ssd" and "covers (GetDirtyRegion ssd) a b"
  shows "covers (GetDirtyRegion ssd') a b \<and> hasDirty ssd'"
  using assms
proof (induction ws arbitrary: ssd)
  case Nil
  then show ?case by simp
next
  case (Cons p ws)
  obtain x y c where p: "p = (x, y, c)" by (cases p)
  from Cons.prems(1) p obtain s1 where s1: "SetPixel ssd x y c = (s1, None)"
    and rest: "SetPixels s1 ws = (ssd', None)"
    by (auto split: prod.splits option.splits)
  from SetPixel_keeps_covered [OF s1 Cons.prems(2,3)] SetPixel_hasDirty [OF s1]
  have "covers (GetDirtyRegion s1) a b" "hasDirty s1" .
  with Cons.IH [OF rest] show ?case by simp
qed

lemma SetPixels_covers_written:
  assumes "SetPixels ssd ws = (ssd', None)" and "(x, y, c) \<in> set ws"
  shows "covers (GetDirtyRegion ssd') x y"
  using assms
proof (induction ws arbitrary: ssd)
  case Nil
  then show ?case by simp
next
  case (Cons p ws)
  obtain x' y' c' where p: "p = (x', y', c')" by (cases p)
  from Cons.prems(1) p obtain s1 where s1: "SetPixel ssd x' y' c' = (s1, None)"
    and rest: "SetPixels s1 ws = (ssd', None)"
    by (auto split: prod.splits option.splits)
  show ?case
  proof (cases "(x, y, c) = p")
    case True
    with p s1 have "covers (GetDirtyRegion s1) x y" "hasDirty s1"
      using SetPixel_covers_written [OF s1] SetPixel_hasDirty [OF s1] by simp_all
    with SetPixels_keeps_covered [OF rest] show ?thesis by simp
  next
    case False
    with Cons.prems(2) have "(x, y, c) \<in> set ws" by simp
    with Cons.IH [OF rest] show ?thesis by simp
  qed
qed

text \<open>
  Claim C7. After any sequence of successful \<^verbatim>\<open>SetPixel\<close> calls, from any state and so
  from the one \<^verbatim>\<open>ClearDirtyRegion\<close> leaves, the region \<^verbatim>\<open>GetDirtyRegion\<close> returns
  contains every coordinate written. A \<^verbatim>\<open>MarkDirty\<close> call on a recorded box only grows
  it: the lower corner does not increase, the upper corner does not decrease, and the box
  stays recorded. Right after \<^verbatim>\<open>ClearDirtyRegion\<close>, \<^verbatim>\<open>GetDirtyRegion\<close> returns
  \<open>(-1, -1, -1, -1)\<close>, its value for no region.
\<close>

theorem dirty_region_tracking:
  "(SetPixels ssd ws = (ssd', None) \<longrightarrow>
      (\<forall>(x, y, c) \<in> set ws. covers (GetDirtyRegion ssd') x y))
   \<and> (hasDirty bd \<longrightarrow>
        hasDirty (MarkDirty bd x0 y0 x1 y1)
        \<and> dirtyX0 (MarkDirty bd x0 y0 x1 y1) \<le> dirtyX0 bd
        \<and> dirtyY0 (MarkDirty bd x0 y0 x1 y1) \<le> dirtyY0 bd
        \<and> dirtyX1 bd \<le> dirtyX1 (MarkDirty bd x0 y0 x1 y1)
        \<and> dirtyY1 bd \<le> dirtyY1 (MarkDirty bd x0 y0 x1 y1))
   \<and> GetDirtyRegion (ClearDirtyRegion bd) = (-1, -1, -1, -1)"
proof (intro conjI impI)
  assume "SetPixels ssd ws = (ssd', None)"
  then show "\<forall>(x, y, c) \<in> set ws. covers (GetDirtyRegion ssd') x y"
    using SetPixels_covers_written by blast
next
  assume d: "hasDirty bd"
  from MarkDirty_grows [OF d, of x0 y0 x1 y1]
  show "hasDirty (MarkDirty bd x0 y0 x1 y1)"
    "dirtyX0 (MarkDirty bd x0 y0 x1 y1) \<le> dirtyX0 bd"
    "dirtyY0 (MarkDirty bd x0 y0 x1 y1) \<le> dirtyY0 bd"
    "dirtyX1 bd \<le> dirtyX1 (MarkDirty bd x0 y0 x1 y1)"
    "dirtyY1 bd \<le> dirtyY1 (MarkDirty bd x0 y0 x1 y1)"
    by simp_all
next
  show "GetDirtyRegion (ClearDirtyRegion bd) = (-1, -1, -1, -1)"
    by (simp add: GetDirtyRegion_def ClearDirtyRegion_def)
qed

theorem dirty_region_tracking_witness:
  "snd (SetPixels (ClearDirtyRegion ssd_256x64) [(3, 2, 0xA), (10, 1, 0x5)]) = None
   \<and> GetDirtyRegion (fst (SetPixels (ClearDirtyRegion ssd_256x64) [(3, 2, 0xA), (10, 1, 0x5)]))
       = (3, 1, 10, 2)
   \<and> covers (GetDirtyRegion (fst (SetPixels (ClearDirtyRegion ssd_256x64)
               [(3, 2, 0xA), (10, 1, 0x5)]))) 3 2
   \<and> covers (GetDirtyRegion (fst (SetPixels (ClearDirtyRegion ssd_256x64)
               [(3, 2, 0xA), (10, 1, 0x5)]))) 10 1
   \<and> hasDirty (MarkDirty (ClearDirtyRegion ssd_256x64) 10 20 30 40)
   \<and> GetDirtyRegion (MarkDirty (ClearDirtyRegion ssd_256x64) 10 20 30 40) = (10, 20, 30, 40)
   \<and> GetDirtyRegion (MarkDirty (MarkDirty (ClearDirtyRegion ssd_256x64) 10 20 30 40) 5 15 50 50)
       = (5, 15, 50, 50)
   \<and> dirtyX0 (MarkDirty (MarkDirty (ClearDirtyRegion ssd_256x64) 10 20 30 40) 5 15 50 50)
       \<le> dirtyX0 (MarkDirty (ClearDirtyRegion ssd_256x64) 10 20 30 40)"
proof -
  let ?ws = "[(3, 2, 0xA), (10, 1, 0x5)] :: (int \<times> int \<times> byte) list"
  let ?r = "SetPixels (ClearDirtyRegion ssd_256x64) ?ws"
  let ?bd = "MarkDirty (ClearDirtyRegion ssd_256x64) 10 20 30 40"
  have ok: "snd ?r = None"
    by (simp add: ssd_256x64_def device_defs SetPixel_def pixel_defs ClearDirtyRegion_def Let_def)
  then have run: "?r = (fst ?r, None)"
    by (simp add: prod_eq_iff)
  have reg: "GetDirtyRegion (fst ?r) = (3, 1, 10, 2)"
    by (simp add: ssd_256x64_def device_defs SetPixel_def pixel_defs ClearDirtyRegion_def
          GetDirtyRegion_def Let_def)
  have d: "hasDirty ?bd" "GetDirtyRegion ?bd = (10, 20, 30, 40)"
    "GetDirtyRegion (MarkDirty ?bd 5 15 50 50) = (5, 15, 50, 50)"
    by (simp_all add: ssd_256x64_def device_defs MarkDirty_def ClearDirtyRegion_def
          GetDirtyRegion_def Let_def)
  from dirty_region_tracking [where ssd = "ClearDirtyRegion ssd_256x64" and ws = ?ws
         and ssd' = "fst ?r" and bd = ?bd and ?x0.0 = 5 and ?y0.0 = 15 and ?x1.0 = 50
         and ?y1.0 = 50]
       run d(1)
  have "\<forall>(x, y, c) \<in> set ?ws. covers (GetDirtyRegion (fst ?r)) x y"
    and "dirtyX0 (MarkDirty ?bd 5 15 50 50) \<le> dirtyX0 ?bd"
    by blast+
  then have "covers (GetDirtyRegion (fst ?r)) 3 2" "covers (GetDirtyRegion (fst ?r)) 10 1"
    and "dirtyX0 (MarkDirty ?bd 5 15 50 50) \<le> dirtyX0 ?bd"
    by simp_all
  with ok reg d show ?thesis by blast
qed

text \<open>
  A covered coordinate stays covered across every call other than
  \<^verbatim>\<open>ClearDirtyRegion\<close>, so a pixel written by \<^verbatim>\<open>SetPixel\<close> is still in the dirty
  region after any later commands, payloads, pixel writes, marks and resets; and a nibble
  a payload byte writes is covered as well.
\<close>

lemma covered_cong:
  assumes "hasDirty s' = hasDirty s" "dirtyX0 s' = dirtyX0 s" "dirtyY0 s' = dirtyY0 s"
    "dirtyX1 s' = dirtyX1 s" "dirtyY1 s' = dirtyY1 s"
  shows "covered s' a b = covered s a b"
  using assms by (simp add: covered_def GetDirtyRegion_def)

lemma MarkDirty_covered:
  "covered bd a b \<Longrightarrow> covered (MarkDirty bd x0 y0 x1 y1) a b"
  unfolding covered_def using MarkDirty_keeps_covered MarkDirty_hasDirty by blast

lemma ProcessCommand_covered:
  "covered (fst (ProcessCommand ssd cmd data)) a b = covered ssd a b"
  by (rule covered_cong) (simp_all add: ProcessCommand_base_fields)

lemma write_nibble_covered:
  assumes "covered ssd a b"
  shows "covered (fst (write_nibble ssd x y c)) a b"
proof (cases "SetPixelNibble (memory ssd) (vram ssd) x y c")
  case (Inl e)
  with assms show ?thesis by (simp add: write_nibble_def)
next
  case (Inr v)
  have "covered (ssd\<lparr>vram := v\<rparr>) a b = covered ssd a b"
    by (rule covered_cong) simp_all
  with assms have "covered (MarkDirty (ssd\<lparr>vram := v\<rparr>) x y x y) a b"
    by (intro MarkDirty_covered) simp
  with Inr show ?thesis by (simp add: write_nibble_def)
qed

lemma advance_cursor_covered:
  "covered (advance_cursor ssd) a b = covered ssd a b"
  by (rule covered_cong) (simp_all add: advance_cursor_def Let_def)

lemma WriteData_byte_covered:
  assumes "covered ssd a b"
  shows "covered (fst (WriteData_byte ssd v)) a b"
proof -
  let ?x = "currentColumn ssd - columnStart ssd" and ?y = "currentRow ssd"
  obtain s1 e1 where s1: "write_nibble ssd ?x ?y (v AND 0x0F) = (s1, e1)"
    by (cases "write_nibble ssd ?x ?y (v AND 0x0F)")
  have c1: "covered s1 a b"
    using write_nibble_covered [OF assms, of ?x ?y "v AND 0x0F"] s1 by simp
  obtain s2 e2 where s2: "write_nibble s1 (?x + 1) ?y (drop_bit 4 v AND 0x0F) = (s2, e2)"
    by (cases "write_nibble s1 (?x + 1) ?y (drop_bit 4 v AND 0x0F)")
  have c2: "covered s2 a b"
    using write_nibble_covered [OF c1, of "?x + 1" ?y "drop_bit 4 v AND 0x0F"] s2 by simp
  show ?thesis
    using assms c1 c2
    by (simp add: WriteData_byte_def Let_def s1 s2 advance_cursor_covered split: option.splits)
qed

lemma WriteData_loop_covered:
  "covered ssd a b \<Longrightarrow> covered (fst (WriteData_loop ssd data)) a b"
proof (induction data arbitrary: ssd)
  case Nil
  then show ?case by simp
next
  case (Cons v rest)
  obtain s e where s: "WriteData_byte ssd v = (s, e)"
    by (cases "WriteData_byte ssd v")
  from WriteData_byte_covered [OF Cons.prems, of v] s have c: "covered s a b" by simp
  from Cons.IH [OF c] c s show ?case by (simp split: option.splits)
qed

lemma SetPixel_covered:
  assumes "covered ssd a b"
  shows "covered (fst (SetPixel ssd x y c)) a b"
proof (cases "SetPixelNibble (memory ssd) (vram ssd) x y (c AND 0x0F)")
  case (Inl e)
  with assms show ?thesis by (simp add: SetPixel_def)
next
  case (Inr v)
  have "covered (ssd\<lparr>vram := v\<rparr>) a b = covered ssd a b"
    by (rule covered_cong) simp_all
  with assms have "covered (MarkDirty (ssd\<lparr>vram := v\<rparr>) x y x y) a b"
    by (intro MarkDirty_covered) simp
  with Inr assms show ?thesis by (simp add: SetPixel_def)
qed

lemma Reset_covered:
  assumes "covered ssd a b"
  shows "covered (fst (Reset ssd)) a b"
proof -
  let ?s = "ssd\<lparr>vram := map (\<lambda>_. 0) (vram ssd),
          commandLocked := True, displayOn := False, dataMode := False,
          contrastLevel := 0x7F, masterCurrentLevel := 0x0F, invertDisplay := False,
          columnStart := 0, columnEnd := BaseDevice_Width ssd - 1, rowStart := 0,
          rowEnd := BaseDevice_Height ssd - 1,
          currentColumn := 0, currentRow := 0, scrollEnabled := False,
          startLine := 0, displayOffset := 0\<rparr>"
  have "covered ?s a b = covered ssd a b"
    by (rule covered_cong) simp_all
  with assms have "covered (MarkDirty ?s 0 0 (BaseDevice_Width ssd - 1) (BaseDevice_Height ssd - 1)) a b"
    by (intro MarkDirty_covered) simp
  then show ?thesis
    by (simp add: Reset_def Let_def BaseDevice_Width_def BaseDevice_Height_def)
qed

lemma step_covered:
  assumes "covered ssd a b" and "c \<noteq> ClearDirty"
  shows "covered (step ssd c) a b"
  using assms
  by (cases c)
     (simp_all add: ProcessCommand_covered WriteData_def WriteData_loop_covered SetPixel_covered
        Reset_covered MarkDirty_covered)

lemma run_covered:
  assumes "covered ssd a b" and "ClearDirty \<notin> set calls"
  shows "covered (run ssd calls) a b"
  using assms unfolding run_def
proof (induction calls arbitrary: ssd)
  case Nil
  then show ?case by simp
next
  case (Cons c calls)
  from Cons.prems have "covered (step ssd c) a b" by (intro step_covered) auto
  with Cons.prems Cons.IH show ?case by simp
qed

lemma SetPixel_then_run_covered:
  assumes "SetPixel ssd x y c = (ssd', None)" and "ClearDirty \<notin> set calls"
  shows "covers (GetDirtyRegion (run ssd' calls)) x y"
proof -
  from assms(1) have "covered ssd' x y"
    unfolding covered_def using SetPixel_covers_written SetPixel_hasDirty by blast
  from run_covered [OF this assms(2)] show ?thesis by (simp add: covered_def)
qed

lemma write_nibble_covers_written:
  assumes "constructed w h ssd" and "SetPixelNibble (memory ssd) (vram ssd) x y c = Inr v"
  shows "covered (fst (write_nibble ssd x y c)) x y"
proof -
  from assms(2) obtain off nib where "PixelToByteOffsetNibble (memory ssd) x y = Inr (off, nib)"
    by (rule SetPixelNibble_Inr)
  then have "0 \<le> x" "x < width (memory ssd)" "0 \<le> y" "y < height (memory ssd)"
    by (auto simp add: PixelToByteOffsetNibble_def Let_def split: if_splits)
  with assms(1) have b: "0 \<le> x" "x < Width (config ssd)" "0 \<le> y" "y < Height (config ssd)"
    by (simp_all add: constructed_def NewMemoryHelper_def)
  then have "covers (GetDirtyRegion (MarkDirty (ssd\<lparr>vram := v\<rparr>) x y x y)) x y"
    by (intro MarkDirty_covers_point) simp_all
  with assms(2) show ?thesis
    by (simp add: write_nibble_def covered_def)
qed

subsection \<open>Reset\<close>

text \<open>
  Claim C1. On the 256 by 64 controller, after the seven commands that set the multiplex
  ratio, the clock divider, the phase length, the precharge, the VCOMH level, the remap
  byte and the grayscale mode, \<^verbatim>\<open>Reset\<close> leaves each of the seven at the value the
  command gave it, not at the value \<^verbatim>\<open>NewSSD1322\<close> gives it.
\<close>

theorem Reset_keeps_timing_scalars:
  "(let ssd = fst (Reset (run ssd_256x64
       [Command CmdSetMultiplexRatio [0x10], Command CmdSetClockDivider [0x91],
        Command CmdSetPhaseLength [0xE2], Command CmdSetPrecharge [0x08],
        Command CmdSetVCOMH [0x04], Command CmdSetRemap [0x06],
        Command CmdGrayscaleTable [0x01]]))
    in multiplexRatio ssd = 0x10 \<and> clockDivider ssd = 0x91 \<and> phaseLength ssd = 0xE2
       \<and> prechargeVoltage ssd = 0x08 \<and> vcomhLevel ssd = 0x04 \<and> remapSettings ssd = 0x06
       \<and> grayscaleTableMode ssd = 1)
   \<and> multiplexRatio ssd_256x64 = 0x3F \<and> clockDivider ssd_256x64 = 0x00 \<and> phaseLength ssd_256x64 = 0x74
   \<and> prechargeVoltage ssd_256x64 = 0x3C \<and> vcomhLevel ssd_256x64 = 0x07 \<and> remapSettings ssd_256x64 = 0x14
   \<and> grayscaleTableMode ssd_256x64 = 0"
  by (simp add: run_def ProcessCommand_opcode Reset_def Let_def ssd_256x64_def device_defs MarkDirty_def)

text \<open>
  \<^verbatim>\<open>Reset\<close> never assigns these seven fields; every other scalar, the window, the cursor,
  the VRAM and the dirty region are as the claim says, in every reachable state.
\<close>

lemma Reset_untouched:
  "multiplexRatio (fst (Reset ssd)) = multiplexRatio ssd"
  "clockDivider (fst (Reset ssd)) = clockDivider ssd"
  "phaseLength (fst (Reset ssd)) = phaseLength ssd"
  "prechargeVoltage (fst (Reset ssd)) = prechargeVoltage ssd"
  "vcomhLevel (fst (Reset ssd)) = vcomhLevel ssd"
  "remapSettings (fst (Reset ssd)) = remapSettings ssd"
  "grayscaleTableMode (fst (Reset ssd)) = grayscaleTableMode ssd"
  by (simp_all add: Reset_def Let_def MarkDirty_def)

lemma Reset_restores:
  assumes "constructed w h ssd"
  shows "snd (Reset ssd) = None"
    and "commandLocked (fst (Reset ssd))" and "\<not> displayOn (fst (Reset ssd))"
    and "\<not> dataMode (fst (Reset ssd))"
    and "contrastLevel (fst (Reset ssd)) = 0x7F" and "masterCurrentLevel (fst (Reset ssd)) = 0x0F"
    and "\<not> invertDisplay (fst (Reset ssd))" and "\<not> scrollEnabled (fst (Reset ssd))"
    and "startLine (fst (Reset ssd)) = 0" and "displayOffset (fst (Reset ssd)) = 0"
    and "columnStart (fst (Reset ssd)) = 0" and "columnEnd (fst (Reset ssd)) = w - 1"
    and "rowStart (fst (Reset ssd)) = 0" and "rowEnd (fst (Reset ssd)) = h - 1"
    and "currentColumn (fst (Reset ssd)) = 0" and "currentRow (fst (Reset ssd)) = 0"
    and "vram (fst (Reset ssd)) = replicate (length (vram ssd)) 0"
    and "GetDirtyRegion (fst (Reset ssd)) = (0, 0, w - 1, h - 1)"
proof -
  from assms have d: "Width (config ssd) = w" "Height (config ssd) = h" "0 < w" "0 < h"
    "hasDirty ssd \<longrightarrow> 0 \<le> dirtyX0 ssd \<and> 0 \<le> dirtyY0 ssd \<and> dirtyX1 ssd \<le> w - 1 \<and> dirtyY1 ssd \<le> h - 1"
    by (simp_all add: constructed_def)
  show "snd (Reset ssd) = None"
    and "commandLocked (fst (Reset ssd))" and "\<not> displayOn (fst (Reset ssd))"
    and "\<not> dataMode (fst (Reset ssd))"
    and "contrastLevel (fst (Reset ssd)) = 0x7F" and "masterCurrentLevel (fst (Reset ssd)) = 0x0F"
    and "\<not> invertDisplay (fst (Reset ssd))" and "\<not> scrollEnabled (fst (Reset ssd))"
    and "startLine (fst (Reset ssd)) = 0" and "displayOffset (fst (Reset ssd)) = 0"
    and "columnStart (fst (Reset ssd)) = 0" and "columnEnd (fst (Reset ssd)) = w - 1"
    and "rowStart (fst (Reset ssd)) = 0" and "rowEnd (fst (Reset ssd)) = h - 1"
    and "currentColumn (fst (Reset ssd)) = 0" and "currentRow (fst (Reset ssd)) = 0"
    using d
    by (simp_all add: Reset_def Let_def MarkDirty_def BaseDevice_Width_def BaseDevice_Height_def)
  show "vram (fst (Reset ssd)) = replicate (length (vram ssd)) 0"
    by (simp add: Reset_def Let_def map_replicate_const)
  show "GetDirtyRegion (fst (Reset ssd)) = (0, 0, w - 1, h - 1)"
    using d
    by (auto simp add: Reset_def Let_def MarkDirty_def GetDirtyRegion_def
          BaseDevice_Width_def BaseDevice_Height_def)
qed

subsection \<open>Payload bytes\<close>

text \<open>
  Claim C2. On the 256 by 64 controller in data mode with the cursor at \<open>(0, 0)\<close>, the
  payload \<open>0xF5, 0xA3\<close> is written without error and moves the cursor to column 2: one
  column for each byte, not two. The second byte starts at pixel 1, so its low nibble
  \<open>0x3\<close> replaces the high nibble \<open>0xF\<close> of the first byte and its high nibble lands on
  pixel 2; pixel 3 stays 0.
\<close>

theorem WriteData_overlapping_bytes:
  "(let r = WriteData (run ssd_256x64 [Command CmdWriteRAM []]) [0xF5, 0xA3]
    in snd r = None \<and> currentColumn (fst r) = 2 \<and> currentRow (fst r) = 0
       \<and> GetPixel (fst r) 0 0 = Inr 0x5 \<and> GetPixel (fst r) 1 0 = Inr 0x3
       \<and> GetPixel (fst r) 2 0 = Inr 0xA \<and> GetPixel (fst r) 3 0 = Inr 0x0)"
  by (simp add: run_def ssd_256x64_def device_defs ProcessCommand_opcode WriteData_def
        WriteData_byte_def write_nibble_def advance_cursor_def GetPixel_def pixel_defs Let_def)

text \<open>
  In general: in a reachable state with the cursor inside the window and less than a
  viewport width from the window start, the code moves the cursor one column for a
  payload byte.
\<close>

lemma WriteData_byte_cursor:
  assumes "constructed w h ssd" and "window_invariant ssd"
    and "currentColumn ssd - columnStart ssd < w"
  shows "currentColumn (fst (WriteData_byte ssd v))
           = (if currentColumn ssd + 1 > columnEnd ssd then columnStart ssd
              else currentColumn ssd + 1)
       \<and> currentRow (fst (WriteData_byte ssd v))
           = (if currentColumn ssd + 1 > columnEnd ssd
              then (if currentRow ssd + 1 > rowEnd ssd then rowStart ssd else currentRow ssd + 1)
              else currentRow ssd)"
proof -
  let ?x = "currentColumn ssd - columnStart ssd" and ?y = "currentRow ssd"
  obtain s1 where s1: "write_nibble ssd ?x ?y (v AND 0x0F) = (s1, None)"
    using constructed_write_nibble(2) [OF assms(1), of ?x ?y "v AND 0x0F"]
    by (cases "write_nibble ssd ?x ?y (v AND 0x0F)") simp
  have c1: "constructed w h s1"
    using constructed_write_nibble(1) [OF assms(1), of ?x ?y "v AND 0x0F"] s1 by simp
  obtain s2 where s2: "write_nibble s1 (?x + 1) ?y (drop_bit 4 v AND 0x0F) = (s2, None)"
    using constructed_write_nibble(2) [OF c1, of "?x + 1" ?y "drop_bit 4 v AND 0x0F"]
    by (cases "write_nibble s1 (?x + 1) ?y (drop_bit 4 v AND 0x0F)") simp
  have f1: "columnStart s1 = columnStart ssd" "columnEnd s1 = columnEnd ssd"
    "rowStart s1 = rowStart ssd" "rowEnd s1 = rowEnd ssd"
    "currentColumn s1 = currentColumn ssd" "currentRow s1 = currentRow ssd"
    "config s1 = config ssd"
    using write_nibble_window_fields [of ssd ?x ?y "v AND 0x0F"] s1 by simp_all
  have f2: "columnStart s2 = columnStart ssd" "columnEnd s2 = columnEnd ssd"
    "rowStart s2 = rowStart ssd" "rowEnd s2 = rowEnd ssd"
    "currentColumn s2 = currentColumn ssd" "currentRow s2 = currentRow ssd"
    using write_nibble_window_fields [of s1 "?x + 1" ?y "drop_bit 4 v AND 0x0F"] s2 f1 by simp_all
  have wd: "BaseDevice_Width ssd = w" "BaseDevice_Width s1 = w"
    using assms(1) c1 by (simp_all add: constructed_def BaseDevice_Width_def)
  show ?thesis
    using assms(2,3)
    by (simp add: WriteData_byte_def Let_def s1 s2 wd window_invariant_def
          advance_cursor_def f1 f2)
qed

text \<open>
  The cursor advances inside the test \<^verbatim>\<open>displayCol < ssd.Width()\<close>: once the cursor is a
  viewport width or more from the window start, payload bytes no longer move it. On a 2
  by 1 controller with the column window \<open>[0, 5]\<close> the cursor stops at column 2.
\<close>

lemma WriteData_cursor_stuck:
  "(case NewSSD1322 2 1 of
      Inl e \<Rightarrow> False
    | Inr s0 \<Rightarrow>
        let ssd = run s0 [Command CmdSetColumnAddress [0, 5], Command CmdWriteRAM []]
        in currentColumn (fst (WriteData ssd [0x21, 0x43])) = 2
           \<and> currentColumn (fst (WriteData ssd [0x21, 0x43, 0x65, 0x87])) = 2
           \<and> currentRow (fst (WriteData ssd [0x21, 0x43, 0x65, 0x87])) = 0
           \<and> columnEnd ssd = 5)"
  by (simp add: run_def device_defs ProcessCommand_opcode WriteData_def
        WriteData_byte_def write_nibble_def advance_cursor_def pixel_defs Let_def)

end
